theory Spec2Isabelle
  imports Complex_Main "HOL-Library.Sublist" "HOL-Library.Signed_Division" "HOL-Library.Log_Nat"
begin

section \<open>Cadence estimator\<close>

text \<open>
  The Go function \<open>BPMEstimateSimple\<close> works on \<open>float64\<close>. It is embedded twice.
  The first embedding is over the reals: every finite float64 input is a real number and
  the arithmetic is taken as exact. The one operation whose IEEE-754 result is not a
  finite number on finite inputs, the division by a zero stride length, yields the value
  \<open>NonFinite\<close> (Go returns +Inf, -Inf or NaN there and does not panic). The second
  embedding, further down, rounds every constant and every operation as float64 does.
  NaN and infinite inputs are outside both.
\<close>

datatype fval = Finite real | NonFinite

definition fdiv :: "real \<Rightarrow> real \<Rightarrow> fval" where
  "fdiv a b = (if b = 0 then NonFinite else Finite (a / b))"

definition fmul :: "fval \<Rightarrow> real \<Rightarrow> fval" where
  "fmul v c = (case v of Finite a \<Rightarrow> Finite (a * c) | NonFinite \<Rightarrow> NonFinite)"

definition BPMEstimateSimple :: "real \<Rightarrow> real \<Rightarrow> fval \<times> real" where
  "BPMEstimateSimple height speed =
     (let L = 0.414 * height;
          L = (if speed > 2.2
               then let scale = 1.0 + 0.25 * ((speed - 2.2) / 1.8);
                        scale = (if scale > 1.25 then 1.25 else scale)
                    in L * scale
               else L);
          maxL = 0.55 * height;
          L = (if L > maxL then maxL else L);
          bpm = fmul (fdiv speed L) 60.0
      in (bpm, L))"

text \<open>
  Two parts of the body by name. Lines 151-154: the final value of the local \<open>scale\<close>
  of the branch \<open>speed > 2.2\<close>.
\<close>

definition stride_scale :: "real \<Rightarrow> real" where
  "stride_scale speed =
     (let scale = 1.0 + 0.25 * ((speed - 2.2) / 1.8)
      in if scale > 1.25 then 1.25 else scale)"

text \<open>Lines 147-156: the value of \<open>L\<close> when line 159 is reached, before the cap.\<close>

definition preclamp_stride :: "real \<Rightarrow> real \<Rightarrow> real" where
  "preclamp_stride height speed =
     (let L = 0.414 * height
      in if speed > 2.2 then L * stride_scale speed else L)"

text \<open>
  The algorithm of section 4.3 of the specification, step by step in the specification's
  own words: base stride, scale factor \<open>min(1.25, 1 + 0.25 (speed - 2.2) / 1.8)\<close> above
  2.2 m/s, clamp to at most \<open>0.55 height\<close>, cadence \<open>(speed / L) 60\<close>.
\<close>

definition spec_BPMEstimate :: "real \<Rightarrow> real \<Rightarrow> fval \<times> real" where
  "spec_BPMEstimate height_m speed_mps =
     (let L0 = 0.414 * height_m;
          L1 = (if speed_mps > 2.2
                then L0 * min 1.25 (1 + 0.25 * (speed_mps - 2.2) / 1.8) else L0);
          L2 = min L1 (0.55 * height_m)
      in (fmul (fdiv speed_mps L2) 60, L2))"


subsection \<open>The estimator with the rounding of float64\<close>

text \<open>
  The second embedding keeps the rounding. \<open>rnd64\<close> rounds a real to the nearest
  binary64 value, ties to even: \<open>rhe\<close> rounds to the nearest integer, ties to even, and
  \<open>expo64 x\<close> is the exponent of the unit in the last place at \<open>x\<close>, which is
  the floor of the binary logarithm of \<open>\<bar>x\<bar>\<close> less 52 and at least \<open>-1074\<close> (the
  step of the subnormal numbers). A finite float64 is a real that \<open>rnd64\<close> leaves as it is and whose magnitude is at most
  \<open>max64\<close>. \<open>rnd64\<close> has no largest exponent; a result beyond \<open>max64\<close> is an infinity in
  Go, and only the cadence can be one: it is \<open>NonFinite\<close>.
\<close>

definition rhe :: "real \<Rightarrow> int" where
  "rhe x =
     (let f = \<lfloor>x\<rfloor>; d = x - of_int f
      in if d < 1 / 2 then f else if 1 / 2 < d then f + 1 else if even f then f else f + 1)"

definition expo64 :: "real \<Rightarrow> int" where
  "expo64 x = max (bitlen \<lfloor>\<bar>x\<bar> * 2 ^ 1074\<rfloor> - 1127) (- 1074)"

definition rnd64 :: "real \<Rightarrow> real" where
  "rnd64 x = (let e = expo64 x in of_int (rhe (x / 2 powi e)) * 2 powi e)"

definition max64 :: real where
  "max64 = (2 ^ 53 - 1) * 2 ^ 971"

definition is_f64 :: "real \<Rightarrow> bool" where
  "is_f64 x = (rnd64 x = x \<and> \<bar>x\<bar> \<le> max64)"

definition to_fval :: "real \<Rightarrow> fval" where
  "to_fval y = (if \<bar>y\<bar> > max64 then NonFinite else Finite y)"

definition fdiv64 :: "real \<Rightarrow> real \<Rightarrow> fval" where
  "fdiv64 a b = (if b = 0 then NonFinite else to_fval (rnd64 (a / b)))"

definition fmul64 :: "fval \<Rightarrow> real \<Rightarrow> fval" where
  "fmul64 v c = (case v of Finite a \<Rightarrow> to_fval (rnd64 (a * c)) | NonFinite \<Rightarrow> NonFinite)"

text \<open>
  Lines 146-167 again. Go converts each constant to float64 and rounds each operation
  on its own; \<open>1.0\<close>, \<open>0.25\<close>, \<open>1.25\<close> and \<open>60.0\<close> are float64 values and stand for
  themselves.
\<close>

definition BPMEstimateSimple_f64 :: "real \<Rightarrow> real \<Rightarrow> fval \<times> real" where
  "BPMEstimateSimple_f64 height speed =
     (let L = rnd64 (rnd64 0.414 * height);
          L = (if speed > rnd64 2.2
               then let scale = rnd64 (1.0 + rnd64 (0.25 *
                                  rnd64 (rnd64 (speed - rnd64 2.2) / rnd64 1.8)));
                        scale = (if scale > 1.25 then 1.25 else scale)
                    in rnd64 (L * scale)
               else L);
          maxL = rnd64 (rnd64 0.55 * height);
          L = (if L > maxL then maxL else L);
          bpm = fmul64 (fdiv64 speed L) 60.0
      in (bpm, L))"

text \<open>Its parts by name, as above: the final \<open>scale\<close>, and \<open>L\<close> before the cap.\<close>

definition stride_scale_f64 :: "real \<Rightarrow> real" where
  "stride_scale_f64 speed =
     (let scale = rnd64 (1.0 + rnd64 (0.25 * rnd64 (rnd64 (speed - rnd64 2.2) / rnd64 1.8)))
      in if scale > 1.25 then 1.25 else scale)"

definition preclamp_stride_f64 :: "real \<Rightarrow> real \<Rightarrow> real" where
  "preclamp_stride_f64 height speed =
     (let L = rnd64 (rnd64 0.414 * height)
      in if speed > rnd64 2.2 then rnd64 (L * stride_scale_f64 speed) else L)"

text \<open>\<open>BPMEstimateSimple\<close> with lines 158-162 (the cap) removed.\<close>

definition BPMEstimate_noclamp_f64 :: "real \<Rightarrow> real \<Rightarrow> fval \<times> real" where
  "BPMEstimate_noclamp_f64 height speed =
     (let L = rnd64 (rnd64 0.414 * height);
          L = (if speed > rnd64 2.2
               then let scale = rnd64 (1.0 + rnd64 (0.25 *
                                  rnd64 (rnd64 (speed - rnd64 2.2) / rnd64 1.8)));
                        scale = (if scale > 1.25 then 1.25 else scale)
                    in rnd64 (L * scale)
               else L);
          bpm = fmul64 (fdiv64 speed L) 60.0
      in (bpm, L))"

text \<open>
  For the heights on the first steps of the subnormal grid, \<open>k\<close> times \<open>2 powi (-1074)\<close>,
  the strides are small multiples of the step: the base stride rounded and scaled by at
  most 1.25 is compared with the cap, both in steps.
\<close>

definition small_ok :: "nat \<Rightarrow> bool" where
  "small_ok k =
     (rhe (of_int (rhe (7457960982925541 / 2 ^ 54 * of_nat k)) * (5 / 4))
        \<le> rhe (2476979795053773 / 2 ^ 52 * of_nat k)
      \<and> rhe (7457960982925541 / 2 ^ 54 * of_nat k) \<le> 32)"

fun all_upto :: "(nat \<Rightarrow> bool) \<Rightarrow> nat \<Rightarrow> bool" where
  "all_upto P 0 = P 0"
| "all_upto P (Suc n) = (P (Suc n) \<and> all_upto P n)"

section \<open>The process, its console and the network\<close>

text \<open>
  Go strings are byte sequences, and so is \<open>string\<close> here. A Go \<open>error\<close> is
  represented by its message; \<open>nil\<close> is \<open>None\<close>.
\<close>

datatype error = Err string

record http_request =
  Method :: string
  URL :: string
  Header :: "(string \<times> string) list"
  ReqBody :: string

record http_response =
  StatusCode :: int
  Status :: string
  Body :: string

record token_payload =
  AccessToken :: string
  ExpiresIn :: int
  TokenType :: string

record artist =
  artist_Name :: string

record track =
  track_Name :: string
  track_Artists :: "artist list"

record tracksPage =
  Items :: "track list"

record searchResp =
  Tracks :: tracksPage

text \<open>
  What the program takes from outside: the environment variables, the standard library
  (\<open>base64.StdEncoding.EncodeToString\<close>, \<open>url.QueryEscape\<close> behind
  \<open>url.Values.Encode\<close>, the failure of \<open>http.NewRequestWithContext\<close>, the two JSON
  decoders, the \<open>%.Nf\<close> verb of \<open>fmt\<close>) and the network behind
  \<open>http.DefaultClient.Do\<close>, which answers a request with a transport error (among them
  the expiry of the ten seconds of the context) or with a response.
\<close>

record env =
  Getenv :: "string \<Rightarrow> string"
  EncodeToString :: "string \<Rightarrow> string"
  QueryEscape :: "string \<Rightarrow> string"
  NewRequest :: "http_request \<Rightarrow> error option"
  Do :: "http_request \<Rightarrow> error + http_response"
  DecodeToken :: "string \<Rightarrow> error + token_payload"
  DecodeSearch :: "string \<Rightarrow> error + searchResp"
  FormatFloat :: "nat \<Rightarrow> fval \<Rightarrow> string"

text \<open>
  What the program does to the outside: the bytes written to standard output and the
  requests handed to \<open>http.DefaultClient.Do\<close>, in order.
\<close>

record world =
  stdout :: string
  sent :: "http_request list"

definition newline :: string where
  "newline = [CHR 0x0A]"

text \<open>The em dash U+2014 of the format string, in UTF-8.\<close>

definition emdash :: string where
  "emdash = [CHR 0xE2, CHR 0x80, CHR 0x94]"

definition Print :: "string \<Rightarrow> world \<Rightarrow> world" where
  "Print s w = w\<lparr>stdout := stdout w @ s\<rparr>"

definition Println :: "string \<Rightarrow> world \<Rightarrow> world" where
  "Println s w = Print (s @ newline) w"

definition digit :: "nat \<Rightarrow> char" where
  "digit d = ''0123456789'' ! d"

fun decimal :: "nat \<Rightarrow> string" where
  "decimal n = (if n < 10 then [digit n] else decimal (n div 10) @ [digit (n mod 10)])"

declare decimal.simps [simp del]

text \<open>The verb \<open>%d\<close>.\<close>

definition fmt_d :: "int \<Rightarrow> string" where
  "fmt_d i = (if i < 0 then ''-'' @ decimal (nat (- i)) else decimal (nat i))"

text \<open>The verb \<open>%2d\<close>: \<open>%d\<close> padded with spaces on the left to two bytes.\<close>

definition fmt_2d :: "int \<Rightarrow> string" where
  "fmt_2d i = (let s = fmt_d i in replicate (2 - length s) (CHR '' '') @ s)"

text \<open>
  \<open>url.Values.Encode\<close> on the pairs given in the order of their keys (the order in which
  \<open>Encode\<close> writes them).
\<close>

fun Encode :: "env \<Rightarrow> (string \<times> string) list \<Rightarrow> string" where
  "Encode e [] = []"
| "Encode e [(k, v)] = QueryEscape e k @ ''='' @ QueryEscape e v"
| "Encode e ((k, v) # kvs) = QueryEscape e k @ ''='' @ QueryEscape e v @ ''&'' @ Encode e kvs"

subsection \<open>getAccessToken\<close>

text \<open>The request of lines 46-57, before and after its two headers are set.\<close>

definition token_request0 :: "env \<Rightarrow> http_request" where
  "token_request0 e =
     \<lparr>Method = ''POST'', URL = ''https://accounts.spotify.com/api/token'', Header = [],
      ReqBody = Encode e [(''grant_type'', ''client_credentials'')]\<rparr>"

definition token_request :: "env \<Rightarrow> string \<Rightarrow> string \<Rightarrow> http_request" where
  "token_request e clientID clientSecret =
     (let basic = EncodeToString e (clientID @ '':'' @ clientSecret)
      in (token_request0 e)
           \<lparr>Header := [(''Content-Type'', ''application/x-www-form-urlencoded''),
                       (''Authorization'', ''Basic '' @ basic)]\<rparr>)"

definition getAccessToken ::
    "env \<Rightarrow> string \<Rightarrow> string \<Rightarrow> world \<Rightarrow> (string \<times> int \<times> error option) \<times> world" where
  "getAccessToken e clientID clientSecret w =
     (case NewRequest e (token_request0 e) of
        Some err \<Rightarrow> (('''', 0, Some err), w)
      | None \<Rightarrow>
          let req = token_request e clientID clientSecret;
              w = w\<lparr>sent := sent w @ [req]\<rparr>
          in (case Do e req of
                Inl err \<Rightarrow> (('''', 0, Some err), w)
              | Inr resp \<Rightarrow>
                  if StatusCode resp \<noteq> 200
                  then (('''', 0, Some (Err (''status '' @ Status resp @ '': '' @ Body resp))), w)
                  else (case DecodeToken e (Body resp) of
                          Inl err \<Rightarrow> (('''', 0, Some err), w)
                        | Inr payload \<Rightarrow> ((AccessToken payload, ExpiresIn payload, None), w))))"

subsection \<open>callSpotifySearchParsed\<close>

definition search_request0 :: "env \<Rightarrow> string \<Rightarrow> int \<Rightarrow> http_request" where
  "search_request0 e term limit =
     (let baseURL = ''https://api.spotify.com/v1/search'';
          q = [(''limit'', fmt_d limit), (''q'', term), (''type'', ''track'')]
      in \<lparr>Method = ''GET'', URL = baseURL @ ''?'' @ Encode e q, Header = [], ReqBody = []\<rparr>)"

definition search_request :: "env \<Rightarrow> string \<Rightarrow> string \<Rightarrow> int \<Rightarrow> http_request" where
  "search_request e token term limit =
     (search_request0 e term limit)\<lparr>Header := [(''Authorization'', ''Bearer '' @ token)]\<rparr>"

text \<open>
  The body of the loop of lines 135-141: what \<open>Printf\<close> writes for the track \<open>t\<close> at the
  index \<open>i\<close>.
\<close>

definition track_line :: "int \<Rightarrow> track \<Rightarrow> string" where
  "track_line i t =
     (let artist = ''Unknown'';
          artist = (if length (track_Artists t) > 0
                    then artist_Name (track_Artists t ! 0) else artist)
      in fmt_2d (i + 1) @ '') '' @ artist @ '' '' @ emdash @ '' '' @ track_Name t @ newline)"

text \<open>The loop \<open>for i, t := range out.Tracks.Items\<close>, from the index \<open>i\<close> on.\<close>

fun range_Items :: "int \<Rightarrow> track list \<Rightarrow> world \<Rightarrow> world" where
  "range_Items i [] w = w"
| "range_Items i (t # ts) w = range_Items (i + 1) ts (Print (track_line i t) w)"

definition callSpotifySearchParsed ::
    "env \<Rightarrow> string \<Rightarrow> string \<Rightarrow> int \<Rightarrow> world \<Rightarrow> error option \<times> world" where
  "callSpotifySearchParsed e token term limit w =
     (case NewRequest e (search_request0 e term limit) of
        Some err \<Rightarrow> (Some err, w)
      | None \<Rightarrow>
          let req = search_request e token term limit;
              w = w\<lparr>sent := sent w @ [req]\<rparr>
          in (case Do e req of
                Inl err \<Rightarrow> (Some err, w)
              | Inr resp \<Rightarrow>
                  if StatusCode resp sdiv 100 \<noteq> 2
                  then (Some (Err (''search failed: '' @ Status resp @ '': '' @ Body resp)), w)
                  else (case DecodeSearch e (Body resp) of
                          Inl err \<Rightarrow> (Some err, w)
                        | Inr out \<Rightarrow>
                            if length (Items (Tracks out)) = 0
                            then (None, Println ''No tracks found.'' w)
                            else (None, range_Items 0 (Items (Tracks out)) w))))"

text \<open>
  The decoded search response: the value of \<open>out\<close> when line 130 is reached, if it is
  reached.
\<close>

definition decoded_search :: "env \<Rightarrow> string \<Rightarrow> string \<Rightarrow> int \<Rightarrow> searchResp option" where
  "decoded_search e token term limit =
     (case NewRequest e (search_request0 e term limit) of
        Some err \<Rightarrow> None
      | None \<Rightarrow>
          (case Do e (search_request e token term limit) of
             Inl err \<Rightarrow> None
           | Inr resp \<Rightarrow>
               if StatusCode resp sdiv 100 \<noteq> 2 then None
               else (case DecodeSearch e (Body resp) of Inl err \<Rightarrow> None | Inr out \<Rightarrow> Some out)))"

subsection \<open>main\<close>

definition error_text :: "error \<Rightarrow> string" where
  "error_text err = (case err of Err m \<Rightarrow> m)"

text \<open>
  \<open>main\<close> of \<open>cmd/web/main.go\<close>. \<open>Println\<close> with two operands writes a space between
  them; the error is written by its message.
\<close>

definition main :: "env \<Rightarrow> world \<Rightarrow> world" where
  "main e w =
     (let client_id = Getenv e ''SPOTIFY_CLIENT_ID'';
          client_secret = Getenv e ''SPOTIFY_CLIENT_SECRET''
      in if client_id = '''' \<or> client_secret = ''''
         then Println ''Missing SPOTIFY_CLIENT_ID or SPOTIFY_CLIENT_SECRET in env'' w
         else (case getAccessToken e client_id client_secret w of
                 ((token, expiresIn, Some err), w) \<Rightarrow>
                   Println (''Token fetch failed: '' @ error_text err) w
               | ((token, expiresIn, None), w) \<Rightarrow>
                   let w = Print (''token length: '' @ fmt_d (int (length token)) @ newline) w;
                       w = Print (''expires_in (sec): '' @ fmt_d expiresIn @ newline) w;
                       w = (case callSpotifySearchParsed e token ''Daft Punk'' 5 w of
                              (Some err, w) \<Rightarrow> Println (''API call failed: '' @ error_text err) w
                            | (None, w) \<Rightarrow> w)
                   in (case BPMEstimateSimple 1.75 2.68224 of
                         (bpm, stepLen) \<Rightarrow>
                           Print (''Estimated cadence: '' @ FormatFloat e 0 bpm
                                  @ '' spm (step length: '' @ FormatFloat e 2 (Finite stepLen)
                                  @ '' m)'' @ newline) w)))"

text \<open>\<open>main\<close> of the second entry point (\<open>unnamed/part_000\<close>), which has no cadence line.\<close>

definition main_part_000 :: "env \<Rightarrow> world \<Rightarrow> world" where
  "main_part_000 e w =
     (let client_id = Getenv e ''SPOTIFY_CLIENT_ID'';
          client_secret = Getenv e ''SPOTIFY_CLIENT_SECRET''
      in if client_id = '''' \<or> client_secret = ''''
         then Println ''Missing SPOTIFY_CLIENT_ID or SPOTIFY_CLIENT_SECRET in env'' w
         else (case getAccessToken e client_id client_secret w of
                 ((token, expiresIn, Some err), w) \<Rightarrow>
                   Println (''Token fetch failed: '' @ error_text err) w
               | ((token, expiresIn, None), w) \<Rightarrow>
                   let w = Print (''token length: '' @ fmt_d (int (length token)) @ newline) w;
                       w = Print (''expires_in (sec): '' @ fmt_d expiresIn @ newline) w
                   in (case callSpotifySearchParsed e token ''Daft Punk'' 5 w of
                         (Some err, w) \<Rightarrow> Println (''API call failed: '' @ error_text err) w
                       | (None, w) \<Rightarrow> w)))"

subsection \<open>The specification's view of the printed list\<close>

text \<open>
  The line the specification gives for a track, \<^verbatim>\<open><rank>) <artist> - <track>\<close> (the
  dash being an em dash), with the rank written by \<open>rank_text\<close>.
\<close>

definition display_artist :: "track \<Rightarrow> string" where
  "display_artist t =
     (case track_Artists t of [] \<Rightarrow> ''Unknown'' | a # _ \<Rightarrow> artist_Name a)"

definition spec_line :: "(int \<Rightarrow> string) \<Rightarrow> int \<Rightarrow> track \<Rightarrow> string" where
  "spec_line rank_text rank t =
     rank_text rank @ '') '' @ display_artist t @ '' '' @ emdash @ '' '' @ track_Name t @ newline"

text \<open>One line for each track, in the order of the list, ranks counting up from \<open>rank\<close>.\<close>

fun spec_lines :: "(int \<Rightarrow> string) \<Rightarrow> int \<Rightarrow> track list \<Rightarrow> string" where
  "spec_lines rank_text rank [] = []"
| "spec_lines rank_text rank (t # ts) =
     spec_line rank_text rank t @ spec_lines rank_text (rank + 1) ts"

subsection \<open>A concrete outside\<close>

text \<open>
  An environment with both credentials set, whose network answers the token request
  with \<open>401 Unauthorized\<close> and every other request with \<open>200 OK\<close>, and whose search
  decoder yields the given tracks.
\<close>

definition demo_env :: "track list \<Rightarrow> env" where
  "demo_env ts =
     \<lparr>Getenv = (\<lambda>k. ''x''),
      EncodeToString = (\<lambda>s. s),
      QueryEscape = (\<lambda>s. s),
      NewRequest = (\<lambda>r. None),
      Do = (\<lambda>r. if Method r = ''POST''
                 then Inr \<lparr>StatusCode = 401, Status = ''401 Unauthorized'', Body = ''denied''\<rparr>
                 else Inr \<lparr>StatusCode = 200, Status = ''200 OK'', Body = ''{}''\<rparr>),
      DecodeToken = (\<lambda>s. Inl (Err ''EOF'')),
      DecodeSearch = (\<lambda>s. Inr \<lparr>Tracks = \<lparr>Items = ts\<rparr>\<rparr>),
      FormatFloat = (\<lambda>n v. ''?'')\<rparr>"

definition no_credentials :: env where
  "no_credentials =
     (demo_env [])\<lparr>Getenv := (\<lambda>k. if k = ''SPOTIFY_CLIENT_ID'' then ''id'' else '''')\<rparr>"

definition w0 :: world where
  "w0 = \<lparr>stdout = [], sent = []\<rparr>"

definition track1 :: track where
  "track1 = \<lparr>track_Name = ''One More Time'', track_Artists = [\<lparr>artist_Name = ''Daft Punk''\<rparr>]\<rparr>"

definition track2 :: track where
  "track2 = \<lparr>track_Name = ''Untitled'', track_Artists = []\<rparr>"

section \<open>Properties of the cadence estimator\<close>

lemma BPMEstimateSimple_parts:
  "BPMEstimateSimple height speed =
     (let L = preclamp_stride height speed;
          L = (if L > 0.55 * height then 0.55 * height else L)
      in (fmul (fdiv speed L) 60, L))"
  by (simp add: BPMEstimateSimple_def preclamp_stride_def stride_scale_def Let_def)

lemma stride_scale_min: "stride_scale s = min 1.25 (1 + 0.25 * (s - 2.2) / 1.8)"
  by (simp add: stride_scale_def Let_def min_def)

lemma stride_scale_le: "stride_scale s \<le> 1.25"
  by (simp add: stride_scale_def Let_def)

lemma stride_scale_mono: "s1 \<le> s2 \<Longrightarrow> stride_scale s1 \<le> stride_scale s2"
  by (simp add: stride_scale_def Let_def divide_right_mono)

lemma preclamp_stride_le:
  assumes "0 \<le> h"
  shows "preclamp_stride h s \<le> 0.5175 * h"
proof (cases "s > 2.2")
  case True
  have "0.414 * h * stride_scale s \<le> 0.414 * h * 1.25"
    using assms stride_scale_le [of s] by (intro mult_left_mono) simp_all
  with True show ?thesis by (simp add: preclamp_stride_def)
next
  case False
  with assms show ?thesis by (simp add: preclamp_stride_def)
qed

lemma cap_idle: "0 \<le> h \<Longrightarrow> \<not> preclamp_stride h s > 0.55 * h"
  using preclamp_stride_le [of h s] by simp

text \<open>
  C1. For every height and speed, \<open>BPMEstimateSimple\<close> returns the pair that the
  closed-form algorithm of the specification computes: the base stride \<open>0.414 height\<close>,
  multiplied above 2.2 m/s by \<open>min(1.25, 1 + 0.25 (speed - 2.2) / 1.8)\<close>, clamped to at
  most \<open>0.55 height\<close>, and the cadence \<open>(speed / L) 60\<close> (not a finite number when
  \<open>L = 0\<close>, on both sides).
\<close>

theorem BPMEstimateSimple_spec:
  "BPMEstimateSimple height speed = spec_BPMEstimate height speed"
  by (simp add: BPMEstimateSimple_parts spec_BPMEstimate_def preclamp_stride_def
      stride_scale_min Let_def min_def)







text \<open>
  C4. Above 2.2 m/s the scale factor that \<open>BPMEstimateSimple\<close> applies to the stride is
  monotonically non-decreasing in the speed and never exceeds 1.25: for
  \<open>2.2 < s1 \<le> s2\<close>, \<open>scale(s1) \<le> scale(s2) \<le> 1.25\<close>, the scale being the factor between
  the base stride \<open>0.414 height\<close> and the stride before the cap, which for a height that
  is not negative is the stride returned.
\<close>

theorem scale_monotone_capped:
  assumes "2.2 < s1" and "s1 \<le> s2"
  shows "stride_scale s1 \<le> stride_scale s2 \<and> stride_scale s2 \<le> 1.25
       \<and> preclamp_stride height s1 = 0.414 * height * stride_scale s1
       \<and> preclamp_stride height s2 = 0.414 * height * stride_scale s2
       \<and> (0 \<le> height \<longrightarrow>
            snd (BPMEstimateSimple height s1) = 0.414 * height * stride_scale s1
          \<and> snd (BPMEstimateSimple height s2) = 0.414 * height * stride_scale s2)"
proof -
  have "2.2 < s2" using assms by simp
  moreover have "0 \<le> height \<Longrightarrow> snd (BPMEstimateSimple height s) = preclamp_stride height s" for s
    using cap_idle [of height s] by (simp add: BPMEstimateSimple_parts Let_def)
  ultimately show ?thesis
    using assms stride_scale_mono [of s1 s2] stride_scale_le [of s2]
    by (simp add: preclamp_stride_def)
qed

theorem scale_monotone_capped_witness:
  "(2.2::real) < 3 \<and> (3::real) \<le> 5 \<and> (0::real) \<le> 1
   \<and> stride_scale 3 \<le> stride_scale 5 \<and> stride_scale 5 \<le> 1.25
   \<and> stride_scale 3 < stride_scale 5
   \<and> snd (BPMEstimateSimple 1 3) = 0.414 * 1 * stride_scale 3"
  using scale_monotone_capped [of 3 5 1] by (simp add: stride_scale_def Let_def)

section \<open>The cap under the rounding of float64\<close>

lemma rhe_err: "\<bar>of_int (rhe x) - x\<bar> \<le> 1 / 2"
  unfolding rhe_def Let_def by (auto; linarith)

lemma rhe_bounds: "\<lfloor>x\<rfloor> \<le> rhe x" "rhe x \<le> \<lfloor>x\<rfloor> + 1"
  by (simp_all add: rhe_def Let_def)

lemma rhe_mono:
  assumes "x \<le> y"
  shows "rhe x \<le> rhe y"
proof (cases "\<lfloor>x\<rfloor> = \<lfloor>y\<rfloor>")
  case True
  with assms show ?thesis by (auto simp add: rhe_def Let_def)
next
  case False
  with assms have "\<lfloor>x\<rfloor> < \<lfloor>y\<rfloor>" using floor_mono [of x y] by linarith
  then have "\<lfloor>x\<rfloor> + 1 \<le> \<lfloor>y\<rfloor>" by simp
  with rhe_bounds(2) [of x] rhe_bounds(1) [of y] show ?thesis by linarith
qed

lemma expo64_lower: "- 1074 \<le> expo64 x"
  by (simp add: expo64_def)

lemma pow2_shift:
  assumes "0 \<le> k + 1074"
  shows "(2::real) powi k * 2 ^ 1074 = 2 ^ nat (k + 1074)"
proof -
  have "(2::real) powi k * 2 powi 1074 = 2 powi (k + 1074)"
    by (simp add: power_int_add)
  also have "\<dots> = 2 ^ nat (k + 1074)"
    using assms by (simp add: power_int_def)
  finally show ?thesis by simp
qed

lemma expo64_normal:
  assumes "2 powi k \<le> \<bar>x\<bar>" and "\<bar>x\<bar> < 2 powi (k + 1)" and "- 1022 \<le> k"
  shows "expo64 x = k - 52"
proof -
  let ?n = "\<lfloor>\<bar>x\<bar> * 2 ^ 1074\<rfloor>"
  have k: "0 \<le> k + 1074" "0 \<le> (k + 1) + 1074" using assms(3) by simp_all
  have lo: "(2::real) ^ nat (k + 1074) \<le> \<bar>x\<bar> * 2 ^ 1074"
    using mult_right_mono [OF assms(1), of "2 ^ 1074"] pow2_shift [OF k(1)] by simp
  have hi: "\<bar>x\<bar> * 2 ^ 1074 < (2::real) ^ nat (k + 1075)"
    using mult_strict_right_mono [OF assms(2), of "2 ^ 1074"] pow2_shift [OF k(2)]
    by (simp add: add.commute add.left_commute)
  have "(2::int) ^ nat (k + 1074) \<le> ?n"
    using lo by (simp add: le_floor_iff)
  moreover have "nat (k + 1075) - 1 = nat (k + 1074)" using k by simp
  ultimately have ge: "k + 1075 \<le> bitlen ?n"
    by (simp add: bitlen_ge_iff_power)
  have "?n < 2 ^ nat (k + 1075)"
    using hi by (simp add: floor_less_iff)
  then have le: "bitlen ?n \<le> k + 1075"
    using k by (simp add: bitlen_le_iff_power)
  from ge le have "bitlen ?n = k + 1075" by simp
  then show ?thesis using assms(3) by (simp add: expo64_def)
qed

lemma expo64_subnormal:
  assumes "\<bar>x\<bar> < 2 powi (- 1022)"
  shows "expo64 x = - 1074"
proof -
  let ?n = "\<lfloor>\<bar>x\<bar> * 2 ^ 1074\<rfloor>"
  have "\<bar>x\<bar> * 2 ^ 1074 < 2 powi (- 1022) * 2 ^ 1074"
    using assms by (intro mult_strict_right_mono) simp_all
  also have "\<dots> = (2::real) ^ nat 52"
    using pow2_shift [of "- 1022"] by simp
  finally have "?n < 2 ^ nat 52" by (simp add: floor_less_iff)
  then have "bitlen ?n \<le> 52" by (simp add: bitlen_le_iff_power)
  then show ?thesis by (simp add: expo64_def)
qed

lemma powi_m1074: "(2::real) powi (- 1074) = 1 / 2 ^ 1074"
  by (simp add: power_int_minus inverse_eq_divide)

lemma rhe_0 [simp]: "rhe 0 = 0"
  by (simp add: rhe_def)

lemma rnd64_normal:
  assumes "2 powi k \<le> \<bar>x\<bar>" and "\<bar>x\<bar> < 2 powi (k + 1)" and "- 1022 \<le> k"
  shows "rnd64 x = of_int (rhe (x / 2 powi (k - 52))) * 2 powi (k - 52)"
  by (simp add: rnd64_def Let_def expo64_normal [OF assms])

lemma rnd64_subnormal:
  assumes "\<bar>x\<bar> < 2 powi (- 1022)"
  shows "rnd64 x = of_int (rhe (x * 2 ^ 1074)) / 2 ^ 1074"
  by (simp add: rnd64_def Let_def expo64_subnormal [OF assms] powi_m1074)

lemma rnd64_0 [simp]: "rnd64 0 = 0"
  by (simp add: rnd64_def)

lemma rnd64_nonneg:
  assumes "0 \<le> x"
  shows "0 \<le> rnd64 x"
proof -
  have "0 \<le> x / 2 powi expo64 x" using assms by simp
  then have "rhe 0 \<le> rhe (x / 2 powi expo64 x)" by (rule rhe_mono)
  then have "0 \<le> rhe (x / 2 powi expo64 x)" by simp
  then show ?thesis by (simp add: rnd64_def Let_def)
qed

lemma rnd64_err: "\<bar>rnd64 x - x\<bar> \<le> \<bar>x\<bar> / 2 ^ 53 + 1 / 2 ^ 1075"
proof -
  let ?e = "expo64 x"
  let ?n = "\<lfloor>\<bar>x\<bar> * 2 ^ 1074\<rfloor>"
  let ?B = "bitlen ?n"
  have "rnd64 x - x = (of_int (rhe (x / 2 powi ?e)) - x / 2 powi ?e) * 2 powi ?e"
    by (simp add: rnd64_def Let_def algebra_simps)
  then have "\<bar>rnd64 x - x\<bar> = \<bar>of_int (rhe (x / 2 powi ?e)) - x / 2 powi ?e\<bar> * 2 powi ?e"
    by (simp add: abs_mult)
  also have "\<dots> \<le> 1 / 2 * 2 powi ?e"
    using rhe_err [of "x / 2 powi ?e"] by (intro mult_right_mono) simp_all
  finally have half: "\<bar>rnd64 x - x\<bar> \<le> 2 powi ?e / 2" by simp
  show ?thesis
  proof (cases "?e = - 1074")
    case True
    have "(2::real) powi (- 1074) / 2 = 1 / 2 ^ 1075"
      by (simp add: powi_m1074)
    with half True have "\<bar>rnd64 x - x\<bar> \<le> 1 / 2 ^ 1075" by simp
    moreover have "0 \<le> \<bar>x\<bar> / 2 ^ 53" by simp
    ultimately show ?thesis by linarith
  next
    case False
    then have e: "?e = ?B - 1127" and big: "- 1074 < ?B - 1127"
      by (auto simp add: expo64_def max_def split: if_splits)
    then have npos: "0 < ?n" using bitlen_eq_zero_iff [of ?n] by (cases "0 < ?n") auto
    have B1: "0 \<le> ?B - 1" using big by simp
    have "2 ^ nat (?B - 1) \<le> ?n" using bitlen_bounds [OF npos] by simp
    then have "(2::real) ^ nat (?B - 1) \<le> of_int ?n"
      by (metis of_int_le_iff of_int_numeral of_int_power)
    also have "\<dots> \<le> \<bar>x\<bar> * 2 ^ 1074" by simp
    finally have b: "(2::real) ^ nat (?B - 1) \<le> \<bar>x\<bar> * 2 ^ 1074" .
    have "(2::real) powi ?e = 2 powi ((?B - 1) - 1126)" using e by simp
    also have "\<dots> = 2 powi (?B - 1) / 2 powi 1126"
      by (rule power_int_diff) simp
    also have "2 powi (?B - 1) = (2::real) ^ nat (?B - 1)"
      using B1 by (simp add: power_int_def)
    finally have "(2::real) powi ?e / 2 = 2 ^ nat (?B - 1) / 2 ^ 1127" by simp
    also have "\<dots> \<le> (\<bar>x\<bar> * 2 ^ 1074) / 2 ^ 1127"
      using b by (rule divide_right_mono) simp
    also have "\<dots> = \<bar>x\<bar> / 2 ^ 53" by simp
    finally have "(2::real) powi ?e / 2 \<le> \<bar>x\<bar> / 2 ^ 53" .
    moreover have "(0::real) \<le> 1 / 2 ^ 1075" by simp
    ultimately show ?thesis using half by linarith
  qed
qed

lemma const_0414: "rnd64 0.414 = 7457960982925541 / 2 ^ 54"
  using rnd64_normal [of "- 2" "0.414"] by (simp add: rhe_def Let_def power_int_minus)

lemma const_055: "rnd64 0.55 = 2476979795053773 / 2 ^ 52"
  using rnd64_normal [of "- 1" "0.55"] by (simp add: rhe_def Let_def power_int_minus)

lemma const_22: "rnd64 2.2 = 2476979795053773 / 2 ^ 50"
  using rnd64_normal [of 1 "2.2"] by (simp add: rhe_def Let_def power_int_minus)

lemma const_18: "rnd64 1.8 = 8106479329266893 / 2 ^ 52"
  using rnd64_normal [of 0 "1.8"] by (simp add: rhe_def Let_def power_int_minus)

lemma const_108: "rnd64 1.08 = 607985949695017 / 2 ^ 49"
  using rnd64_normal [of 0 "1.08"] by (simp add: rhe_def Let_def power_int_minus)

lemma exact_constants: "rnd64 1 = 1" "rnd64 0.25 = 0.25" "rnd64 1.25 = 1.25" "rnd64 60 = 60" "rnd64 5 = 5"
  using rnd64_normal [of 0 1] rnd64_normal [of "- 2" "0.25"] rnd64_normal [of 0 "1.25"]
    rnd64_normal [of 5 60] rnd64_normal [of 2 5]
  by (simp_all add: rhe_def Let_def power_int_minus)


lemma scale_at_5: "stride_scale_f64 5 = 1.25"
proof -
  have d: "rnd64 (5 - 2476979795053773 / 2 ^ 50) = 3152519739159347 / 2 ^ 50"
    using rnd64_normal [of 1 "5 - 2476979795053773 / 2 ^ 50"]
    by (simp add: rhe_def Let_def power_int_minus)
  have q: "rnd64 ((3152519739159347 / 2 ^ 50) / (8106479329266893 / 2 ^ 52)) = 875699927544263 / 2 ^ 49"
    using rnd64_normal [of 0 "(3152519739159347 / 2 ^ 50) / (8106479329266893 / 2 ^ 52)"]
    by (simp add: rhe_def Let_def power_int_minus)
  have m: "rnd64 (0.25 * (875699927544263 / 2 ^ 49)) = 875699927544263 / 2 ^ 51"
    using rnd64_normal [of "- 2" "0.25 * (875699927544263 / 2 ^ 49)"]
    by (simp add: rhe_def Let_def power_int_minus)
  have sc: "rnd64 (1.0 + 875699927544263 / 2 ^ 51) = 3127499741229511 / 2 ^ 51"
    using rnd64_normal [of 0 "1.0 + 875699927544263 / 2 ^ 51"]
    by (simp add: rhe_def Let_def power_int_minus)
  show ?thesis
    unfolding stride_scale_f64_def const_22 const_18 d q m sc by (simp add: Let_def)
qed

lemma preclamp_at_108_5: "preclamp_stride_f64 (rnd64 1.08) 5 = 5034123663474741 / 2 ^ 53"
proof -
  have l0: "rnd64 (7457960982925541 / 2 ^ 54 * (607985949695017 / 2 ^ 49)) = 8054597861559585 / 2 ^ 54"
    using rnd64_normal [of "- 2" "7457960982925541 / 2 ^ 54 * (607985949695017 / 2 ^ 49)"]
    by (simp add: rhe_def Let_def power_int_minus)
  have l1: "rnd64 (8054597861559585 / 2 ^ 54 * 1.25) = 5034123663474741 / 2 ^ 53"
    using rnd64_normal [of "- 1" "8054597861559585 / 2 ^ 54 * 1.25"]
    by (simp add: rhe_def Let_def power_int_minus)
  have gt: "(5::real) > 2476979795053773 / 2 ^ 50" by simp
  show ?thesis
    unfolding preclamp_stride_f64_def scale_at_5 const_0414 const_108 const_22 l0 Let_def
    using gt l1 by simp
qed

lemma f64_grid:
  assumes "is_f64 h" and "0 \<le> h"
  shows "\<exists>k::nat. h = of_nat k / 2 ^ 1074"
proof -
  let ?e = "expo64 h"
  let ?m = "rhe (h / 2 powi ?e)"
  define P :: real where "P = 2 ^ 1074"
  define Q :: real where "Q = 2 ^ nat (?e + 1074)"
  have P: "0 < P" by (simp add: P_def)
  have e: "0 \<le> ?e + 1074" using expo64_lower [of h] by simp
  have h: "h = of_int ?m * 2 powi ?e"
    using assms(1) by (simp add: is_f64_def rnd64_def Let_def)
  have "rhe 0 \<le> ?m" using assms(2) by (intro rhe_mono) simp
  then have m: "0 \<le> ?m" by simp
  have "(2::real) powi ?e * P = Q" unfolding P_def Q_def using e by (rule pow2_shift)
  then have "(2::real) powi ?e = Q / P"
    using P by (simp add: field_simps)
  with h have "h = of_int ?m * Q / P" by simp
  also have "of_int ?m * Q = of_nat (nat ?m * 2 ^ nat (?e + 1074))"
    using m by (simp add: Q_def)
  finally show ?thesis unfolding P_def by blast
qed

lemma rnd64_grid:
  assumes "\<bar>y\<bar> < 2 ^ 52"
  shows "rnd64 (y / 2 ^ 1074) = of_int (rhe y) / 2 ^ 1074"
proof -
  have "(2::real) powi (- 1022) = 2 ^ 52 / 2 ^ 1074"
    by (simp add: power_int_minus inverse_eq_divide)
  moreover have "\<bar>y / 2 ^ 1074\<bar> = \<bar>y\<bar> / 2 ^ 1074" by simp
  moreover have "\<bar>y\<bar> / 2 ^ 1074 < 2 ^ 52 / 2 ^ 1074"
    using assms by (rule divide_strict_right_mono) simp
  ultimately have "\<bar>y / 2 ^ 1074\<bar> < 2 powi (- 1022)" by simp
  then have "rnd64 (y / 2 ^ 1074) = of_int (rhe (y / 2 ^ 1074 * 2 ^ 1074)) / 2 ^ 1074"
    by (rule rnd64_subnormal)
  then show ?thesis by simp
qed

lemma all_upto_D: "all_upto P n \<Longrightarrow> k \<le> n \<Longrightarrow> P k"
  by (induction n) (auto simp add: le_Suc_eq)

lemma small_table: "all_upto small_ok 63"
  by (simp add: eval_nat_numeral small_ok_def rhe_def Let_def)


lemma rounding_gap:
  fixes h s L0 L1 M a b eps eta :: real
  assumes a: "0 \<le> a" "a \<le> (4141 / 10000)" and b: "(5499 / 10000) \<le> b"
    and eps: "0 \<le> eps" "eps \<le> 1 / 1000000" and eta: "0 \<le> eta" "128 * eta \<le> h"
    and s: "0 \<le> s" "s \<le> 5 / 4"
    and L0: "0 \<le> L0" "L0 \<le> a * h + (a * h) * eps + eta"
    and L1: "L1 \<le> L0 * s + (L0 * s) * eps + eta"
    and M: "b * h - (b * h) * eps - eta \<le> M"
  shows "L1 \<le> M" and "L0 \<le> M"
proof -
  have h: "0 \<le> h" using eta by linarith
  have ah: "a * h \<le> (4141 / 10000) * h" "0 \<le> a * h"
    using a(1) h mult_right_mono [OF a(2) h] by simp_all
  have "(a * h) * eps \<le> ((4141 / 10000) * h) * (1 / 1000000)"
    by (rule mult_mono [OF ah(1) eps(2)]) (use h eps in simp_all)
  with ah L0 have L0u: "L0 \<le> (4141 / 10000) * h + (4141 / 10000) * h / 1000000 + eta" by simp
  have x: "0 \<le> L0 * s" "L0 * s \<le> L0 * (5 / 4)"
    using L0(1) s(1) mult_left_mono [OF s(2) L0(1)] by simp_all
  have "(L0 * s) * eps \<le> (L0 * (5 / 4)) * (1 / 1000000)"
    by (rule mult_mono [OF x(2) eps(2)]) (use L0 eps in simp_all)
  with x L1 have L1u: "L1 \<le> L0 * (5 / 4) + L0 * (5 / 4) / 1000000 + eta" by simp
  have bh: "(5499 / 10000) * h \<le> b * h" using mult_right_mono [OF b h] by simp
  have "0 \<le> b" using b by simp
  then have bh0: "0 \<le> b * h" using h by simp
  have "(b * h) * eps \<le> (b * h) * (1 / 1000000)"
    by (rule mult_left_mono [OF eps(2) bh0])
  with M have Ml: "b * h - (b * h) / 1000000 - eta \<le> M" by simp
  have "(5499 / 10000) * h * (1 - 1 / 1000000) \<le> b * h * (1 - 1 / 1000000)"
    by (rule mult_right_mono [OF bh]) simp
  then have "(5499 / 10000) * h - (5499 / 10000) * h / 1000000 \<le> b * h - (b * h) / 1000000"
    by (simp add: algebra_simps)
  with Ml have Ml': "(5499 / 10000) * h - (5499 / 10000) * h / 1000000 - eta \<le> M" by linarith
  show "L0 \<le> M" using L0u Ml' eta h by linarith
  show "L1 \<le> M" using L0u L1u Ml' eta h by linarith
qed


lemma cap_small:
  assumes k: "k \<le> 63" and s: "0 \<le> s" "s \<le> 5 / 4" and h: "h = of_nat k / 2 ^ 1074"
  shows "rnd64 (rnd64 (7457960982925541 / 2 ^ 54 * h) * s) \<le> rnd64 (2476979795053773 / 2 ^ 52 * h)"
    and "rnd64 (7457960982925541 / 2 ^ 54 * h) \<le> rnd64 (2476979795053773 / 2 ^ 52 * h)"
proof -
  define a :: real where "a = 7457960982925541 / 2 ^ 54"
  define b :: real where "b = 2476979795053773 / 2 ^ 52"
  define j where "j = rhe (a * of_nat k)"
  define m where "m = rhe (b * of_nat k)"
  have a: "0 \<le> a" "a \<le> b" and b: "b \<le> 1" by (simp_all add: a_def b_def)
  have kr: "(0::real) \<le> of_nat k" "of_nat k \<le> (63::real)" using k by simp_all
  have ok: "small_ok k" using all_upto_D [OF small_table k] .
  have tab: "rhe (of_int j * (5 / 4)) \<le> m" and j32: "j \<le> 32"
    using ok by (simp_all add: small_ok_def j_def m_def a_def b_def)
  have "rhe 0 \<le> j" unfolding j_def using a(1) kr(1) by (intro rhe_mono) simp
  then have j0: "0 \<le> j" by simp
  have jm: "j \<le> m" unfolding j_def m_def
    using a(2) kr(1) by (intro rhe_mono mult_right_mono)
  have ak: "\<bar>a * of_nat k\<bar> < 2 ^ 52"
  proof -
    have "a * of_nat k \<le> 1 * 63" using a b kr by (intro mult_mono) simp_all
    moreover have "0 \<le> a * of_nat k" using a kr by simp
    ultimately show ?thesis by simp
  qed
  have bk: "\<bar>b * of_nat k\<bar> < 2 ^ 52"
  proof -
    have "b * of_nat k \<le> 1 * 63" using a b kr by (intro mult_mono) simp_all
    moreover have "0 \<le> b * of_nat k" using a kr by simp
    ultimately show ?thesis by simp
  qed
  have js: "\<bar>of_int j * s\<bar> < 2 ^ 52"
  proof -
    have "of_int j * s \<le> 32 * (5 / 4)" using j0 j32 s by (intro mult_mono) simp_all
    moreover have "0 \<le> of_int j * s" using j0 s by simp
    ultimately show ?thesis by simp
  qed
  have L0: "rnd64 (a * h) = of_int j / 2 ^ 1074"
    using rnd64_grid [OF ak] by (simp add: h j_def)
  have M: "rnd64 (b * h) = of_int m / 2 ^ 1074"
    using rnd64_grid [OF bk] by (simp add: h m_def)
  have L1: "rnd64 (rnd64 (a * h) * s) = of_int (rhe (of_int j * s)) / 2 ^ 1074"
    using rnd64_grid [OF js] by (simp add: L0)
  have "rhe (of_int j * s) \<le> rhe (of_int j * (5 / 4))"
    using j0 s by (intro rhe_mono mult_left_mono) simp_all
  with tab have "rhe (of_int j * s) \<le> m" by simp
  then have "(of_int (rhe (of_int j * s)) :: real) \<le> of_int m" by simp
  then have "rnd64 (rnd64 (a * h) * s) \<le> rnd64 (b * h)"
    unfolding L1 M by (rule divide_right_mono) simp
  then show "rnd64 (rnd64 (7457960982925541 / 2 ^ 54 * h) * s) \<le> rnd64 (2476979795053773 / 2 ^ 52 * h)"
    unfolding a_def b_def .
  have "(of_int j :: real) \<le> of_int m" using jm by simp
  then have "rnd64 (a * h) \<le> rnd64 (b * h)"
    unfolding L0 M by (rule divide_right_mono) simp
  then show "rnd64 (7457960982925541 / 2 ^ 54 * h) \<le> rnd64 (2476979795053773 / 2 ^ 52 * h)"
    unfolding a_def b_def .
qed

lemma cap_big:
  assumes h: "64 / 2 ^ 1074 \<le> h" and s: "0 \<le> s" "s \<le> 5 / 4"
  shows "rnd64 (rnd64 (7457960982925541 / 2 ^ 54 * h) * s) \<le> rnd64 (2476979795053773 / 2 ^ 52 * h)"
    and "rnd64 (7457960982925541 / 2 ^ 54 * h) \<le> rnd64 (2476979795053773 / 2 ^ 52 * h)"
proof -
  define a :: real where "a = 7457960982925541 / 2 ^ 54"
  define b :: real where "b = 2476979795053773 / 2 ^ 52"
  define eps :: real where "eps = 1 / 2 ^ 53"
  define eta :: real where "eta = 1 / 2 ^ 1075"
  define L0 where "L0 = rnd64 (a * h)"
  have a: "0 \<le> a" "a \<le> 4141 / 10000" and b: "5499 / 10000 \<le> b"
    by (simp_all add: a_def b_def)
  have eps: "0 \<le> eps" "eps \<le> 1 / 1000000" by (simp_all add: eps_def)
  have eta: "0 \<le> eta" by (simp add: eta_def)
  have "128 * eta = 64 / 2 ^ 1074" by (simp add: eta_def)
  with h have heta: "128 * eta \<le> h" by simp
  have h0: "0 \<le> h" using heta eta by linarith
  have ah: "0 \<le> a * h" using a h0 by simp
  have b0: "0 \<le> b" using b by simp
  have bh: "0 \<le> b * h" using b0 h0 by simp
  have err: "\<bar>rnd64 x - x\<bar> \<le> \<bar>x\<bar> * eps + eta" for x
    using rnd64_err [of x] by (simp add: eps_def eta_def)
  have L0: "0 \<le> L0" unfolding L0_def using ah by (rule rnd64_nonneg)
  have L0u: "L0 \<le> a * h + (a * h) * eps + eta"
    using err [of "a * h"] ah unfolding L0_def by (simp add: abs_if split: if_splits)
  have x0: "0 \<le> L0 * s" using L0 s by simp
  have L1u: "rnd64 (L0 * s) \<le> L0 * s + (L0 * s) * eps + eta"
    using err [of "L0 * s"] x0 by (simp add: abs_if split: if_splits)
  have Ml: "b * h - (b * h) * eps - eta \<le> rnd64 (b * h)"
    using err [of "b * h"] bh by (simp add: abs_if split: if_splits)
  have "rnd64 (L0 * s) \<le> rnd64 (b * h)"
    by (rule rounding_gap(1) [OF a b eps eta heta s L0 L0u L1u Ml])
  then show "rnd64 (rnd64 (7457960982925541 / 2 ^ 54 * h) * s) \<le> rnd64 (2476979795053773 / 2 ^ 52 * h)"
    unfolding L0_def a_def b_def .
  have "L0 \<le> rnd64 (b * h)"
    by (rule rounding_gap(2) [OF a b eps eta heta s L0 L0u L1u Ml])
  then show "rnd64 (7457960982925541 / 2 ^ 54 * h) \<le> rnd64 (2476979795053773 / 2 ^ 52 * h)"
    unfolding L0_def a_def b_def .
qed

lemma cap_idle_f64:
  assumes "is_f64 h" and "0 \<le> h" and s: "0 \<le> s" "s \<le> 5 / 4"
  shows "rnd64 (rnd64 (rnd64 0.414 * h) * s) \<le> rnd64 (rnd64 0.55 * h)"
    and "rnd64 (rnd64 0.414 * h) \<le> rnd64 (rnd64 0.55 * h)"
proof -
  obtain k :: nat where k: "h = of_nat k / 2 ^ 1074"
    using f64_grid [OF assms(1,2)] by blast
  have both: "rnd64 (rnd64 (7457960982925541 / 2 ^ 54 * h) * s) \<le> rnd64 (2476979795053773 / 2 ^ 52 * h)
      \<and> rnd64 (7457960982925541 / 2 ^ 54 * h) \<le> rnd64 (2476979795053773 / 2 ^ 52 * h)"
  proof (cases "k \<le> 63")
    case True
    then show ?thesis using cap_small [OF True s k] by simp
  next
    case False
    then have "(64::real) \<le> of_nat k" by simp
    then have "64 / 2 ^ 1074 \<le> h" unfolding k by (rule divide_right_mono) simp
    then show ?thesis using cap_big [OF _ s] by simp
  qed
  show "rnd64 (rnd64 (rnd64 0.414 * h) * s) \<le> rnd64 (rnd64 0.55 * h)"
    unfolding const_0414 const_055 using both by simp
  show "rnd64 (rnd64 0.414 * h) \<le> rnd64 (rnd64 0.55 * h)"
    unfolding const_0414 const_055 using both by simp
qed

lemma stride_scale_f64_range:
  assumes "speed > rnd64 2.2"
  shows "0 \<le> stride_scale_f64 speed" and "stride_scale_f64 speed \<le> 5 / 4"
proof -
  have "0 \<le> rnd64 (speed - rnd64 2.2)" using assms by (intro rnd64_nonneg) simp
  moreover have "0 \<le> rnd64 1.8" by (intro rnd64_nonneg) simp
  ultimately have "0 \<le> rnd64 (speed - rnd64 2.2) / rnd64 1.8"
    by (rule divide_nonneg_nonneg)
  then have "0 \<le> rnd64 (rnd64 (speed - rnd64 2.2) / rnd64 1.8)"
    by (rule rnd64_nonneg)
  then have "0 \<le> 0.25 * rnd64 (rnd64 (speed - rnd64 2.2) / rnd64 1.8)"
    by simp
  then have "0 \<le> rnd64 (0.25 * rnd64 (rnd64 (speed - rnd64 2.2) / rnd64 1.8))"
    by (rule rnd64_nonneg)
  then have "0 \<le> rnd64 (1.0 + rnd64 (0.25 * rnd64 (rnd64 (speed - rnd64 2.2) / rnd64 1.8)))"
    by (intro rnd64_nonneg) simp
  then show "0 \<le> stride_scale_f64 speed" "stride_scale_f64 speed \<le> 5 / 4"
    by (simp_all add: stride_scale_f64_def Let_def)
qed

lemma BPMEstimateSimple_f64_parts:
  "BPMEstimateSimple_f64 height speed =
     (let L = preclamp_stride_f64 height speed;
          maxL = rnd64 (rnd64 0.55 * height);
          L = (if L > maxL then maxL else L)
      in (fmul64 (fdiv64 speed L) 60, L))"
  by (simp add: BPMEstimateSimple_f64_def preclamp_stride_f64_def stride_scale_f64_def Let_def)

lemma BPMEstimate_noclamp_f64_parts:
  "BPMEstimate_noclamp_f64 height speed =
     (fmul64 (fdiv64 speed (preclamp_stride_f64 height speed)) 60,
      preclamp_stride_f64 height speed)"
  by (simp add: BPMEstimate_noclamp_f64_def preclamp_stride_f64_def stride_scale_f64_def Let_def)

lemma f64_108: "is_f64 (rnd64 1.08)"
  unfolding is_f64_def const_108
  using rnd64_normal [of 0 "607985949695017 / 2 ^ 49"]
  by (simp add: rhe_def Let_def power_int_minus max64_def)

text \<open>
  C10 as it is stated fails on the rounded arithmetic of the code. At the float64 height
  nearest to 1.08 and the speed 5 the stride before the cap is
  \<open>5034123663474741 / 2 ^ 53\<close> (printed 0.55890000000000006), which is above
  \<open>0.5175 height\<close>.
\<close>

theorem preclamp_bound_counterexample:
  "is_f64 (rnd64 1.08) \<and> 0 \<le> rnd64 1.08
   \<and> preclamp_stride_f64 (rnd64 1.08) 5 = 5034123663474741 / 2 ^ 53
   \<and> \<not> preclamp_stride_f64 (rnd64 1.08) 5 \<le> 0.5175 * rnd64 1.08"
proof -
  have "\<not> preclamp_stride_f64 (rnd64 1.08) 5 \<le> 0.5175 * rnd64 1.08"
    unfolding preclamp_at_108_5 unfolding const_108 by simp
  moreover have "(0::real) \<le> rnd64 1.08" unfolding const_108 by simp
  ultimately show ?thesis using f64_108 preclamp_at_108_5 by simp
qed

text \<open>
  C10, amended. For every finite float64 height that is not negative and every speed,
  the stride before the cap is at most the cap \<open>0.55 height\<close> as the code computes it;
  so the branch of the cap is never taken, and \<open>BPMEstimateSimple\<close> returns what the same
  function without the cap returns.
\<close>

theorem cap_redundant:
  assumes "is_f64 height" and "0 \<le> height"
  shows "preclamp_stride_f64 height speed \<le> rnd64 (rnd64 0.55 * height)
       \<and> BPMEstimateSimple_f64 height speed = BPMEstimate_noclamp_f64 height speed"
proof -
  have le: "preclamp_stride_f64 height speed \<le> rnd64 (rnd64 0.55 * height)"
  proof (cases "speed > rnd64 2.2")
    case True
    show ?thesis
      using True cap_idle_f64(1) [OF assms stride_scale_f64_range [OF True]]
      by (simp add: preclamp_stride_f64_def Let_def)
  next
    case False
    have "(0::real) \<le> 1" "(1::real) \<le> 5 / 4" by simp_all
    from cap_idle_f64(2) [OF assms this] False show ?thesis
      by (simp add: preclamp_stride_f64_def Let_def)
  qed
  then show ?thesis
    by (simp add: BPMEstimateSimple_f64_parts BPMEstimate_noclamp_f64_parts Let_def)
qed

theorem cap_redundant_witness:
  "is_f64 (rnd64 1.08) \<and> 0 \<le> rnd64 1.08
   \<and> preclamp_stride_f64 (rnd64 1.08) 5 \<le> rnd64 (rnd64 0.55 * rnd64 1.08)
   \<and> BPMEstimateSimple_f64 (rnd64 1.08) 5 = BPMEstimate_noclamp_f64 (rnd64 1.08) 5"
proof -
  have nonneg: "(0::real) \<le> rnd64 1.08" unfolding const_108 by simp
  show ?thesis using cap_redundant [OF f64_108 nonneg, of 5] f64_108 nonneg by simp
qed

section \<open>Properties of the search client\<close>

lemma fmt_d_1: "fmt_d 1 = ''1''"
  by (simp add: fmt_d_def decimal.simps digit_def)

lemma fmt_2d_1: "fmt_2d 1 = '' 1''"
  by (simp add: fmt_2d_def fmt_d_def decimal.simps digit_def)

lemma fmt_2d_2: "fmt_2d 2 = '' 2''"
  by (simp add: fmt_2d_def fmt_d_def decimal.simps digit_def)

lemma fmt_2d_10: "fmt_2d 10 = ''10''"
  by (simp add: fmt_2d_def fmt_d_def decimal.simps [of 10] decimal.simps [of "Suc 0"] digit_def)

lemma track_line_spec: "track_line i t = spec_line fmt_2d (i + 1) t"
  by (cases "track_Artists t") (simp_all add: track_line_def spec_line_def display_artist_def)

lemma range_Items_spec:
  "range_Items i ts w = w\<lparr>stdout := stdout w @ spec_lines fmt_2d (i + 1) ts\<rparr>"
proof (induction ts arbitrary: i w)
  case Nil
  show ?case by simp
next
  case (Cons t ts)
  show ?case by (simp add: Cons.IH track_line_spec Print_def)
qed

lemma spec_lines_append:
  "spec_lines f r (xs @ ys) = spec_lines f r xs @ spec_lines f (r + int (length xs)) ys"
  by (induction xs arbitrary: r) (simp_all add: add.assoc)

text \<open>The line at the index \<open>k\<close> is the line of the track at the index \<open>k\<close>.\<close>

lemma spec_lines_by_index:
  "spec_lines f r ts = concat (map (\<lambda>k. spec_line f (r + int k) (ts ! k)) [0..<length ts])"
proof (induction ts arbitrary: r)
  case Nil
  show ?case by simp
next
  case (Cons t ts)
  have "map (\<lambda>k. spec_line f (r + int k) ((t # ts) ! k)) [0..<length (t # ts)] =
        spec_line f r t # map (\<lambda>k. spec_line f (r + 1 + int k) (ts ! k)) [0..<length ts]"
    by (simp add: map_upt_Suc add.assoc del: upt_Suc)
  then show ?case by (simp add: Cons.IH)
qed

lemma callSpotifySearchParsed_decoded:
  assumes "decoded_search e token term limit = Some out"
  shows "callSpotifySearchParsed e token term limit w =
         (None, if Items (Tracks out) = []
                then Println ''No tracks found.''
                       (w\<lparr>sent := sent w @ [search_request e token term limit]\<rparr>)
                else range_Items 0 (Items (Tracks out))
                       (w\<lparr>sent := sent w @ [search_request e token term limit]\<rparr>))"
  using assms
  by (auto simp add: decoded_search_def callSpotifySearchParsed_def Let_def
      split: option.splits sum.splits if_splits)

lemma decoded_demo:
  "decoded_search (demo_env ts) token term limit = Some \<lparr>Tracks = \<lparr>Items = ts\<rparr>\<rparr>"
  by (simp add: decoded_search_def demo_env_def search_request_def search_request0_def Let_def
      signed_divide_int_def)

text \<open>
  C5. For every track of the decoded search response whose artist list is empty, the
  artist shown in the line of that track is the literal string \<open>Unknown\<close>: the output is
  the lines of the tracks before it, then the rank, \<open>) Unknown\<close>, the dash and the name
  of the track, then the lines of the tracks after it.
\<close>

theorem unknown_artist:
  assumes "decoded_search e token term limit = Some out"
    and "i < length (Items (Tracks out))"
    and "track_Artists (Items (Tracks out) ! i) = []"
  shows "stdout (snd (callSpotifySearchParsed e token term limit w)) =
         stdout w @ spec_lines fmt_2d 1 (take i (Items (Tracks out)))
         @ (fmt_2d (int i + 1) @ '') Unknown '' @ emdash @ '' ''
              @ track_Name (Items (Tracks out) ! i) @ newline)
         @ spec_lines fmt_2d (int i + 2) (drop (Suc i) (Items (Tracks out)))"
proof -
  let ?ts = "Items (Tracks out)"
  have ne: "?ts \<noteq> []" using assms(2) by auto
  have split: "?ts = take i ?ts @ (?ts ! i) # drop (Suc i) ?ts"
    using assms(2) by (rule id_take_nth_drop)
  have len: "length (take i ?ts) = i" using assms(2) by simp
  have "spec_lines fmt_2d 1 ?ts =
        spec_lines fmt_2d 1 (take i ?ts)
        @ spec_lines fmt_2d (1 + int i) ((?ts ! i) # drop (Suc i) ?ts)"
    using spec_lines_append [of fmt_2d 1 "take i ?ts" "(?ts ! i) # drop (Suc i) ?ts"] split len
    by simp
  moreover have "spec_line fmt_2d (1 + int i) (?ts ! i) =
        fmt_2d (int i + 1) @ '') Unknown '' @ emdash @ '' '' @ track_Name (?ts ! i) @ newline"
    using assms(3) by (simp add: spec_line_def display_artist_def add.commute)
  ultimately have "spec_lines fmt_2d 1 ?ts =
        spec_lines fmt_2d 1 (take i ?ts)
        @ (fmt_2d (int i + 1) @ '') Unknown '' @ emdash @ '' '' @ track_Name (?ts ! i) @ newline)
        @ spec_lines fmt_2d (int i + 2) (drop (Suc i) ?ts)"
    by (simp add: add.commute)
  then show ?thesis
    using ne by (simp add: callSpotifySearchParsed_decoded [OF assms(1)] range_Items_spec)
qed

theorem unknown_artist_witness:
  "stdout (snd (callSpotifySearchParsed (demo_env [track1, track2]) ''tok'' ''Daft Punk'' 5 w0)) =
     '' 1) Daft Punk '' @ emdash @ '' One More Time'' @ newline
     @ '' 2) Unknown '' @ emdash @ '' Untitled'' @ newline"
  using unknown_artist [of "demo_env [track1, track2]" "''tok''" "''Daft Punk''" 5
        "\<lparr>Tracks = \<lparr>Items = [track1, track2]\<rparr>\<rparr>" 1 w0]
  by (simp add: decoded_demo track1_def track2_def w0_def spec_line_def display_artist_def
      fmt_2d_1 fmt_2d_2)

text \<open>
  C6. When the list \<open>tracks.items\<close> of the decoded search response is empty,
  \<open>callSpotifySearchParsed\<close> prints the line \<open>No tracks found.\<close> and nothing else, and
  returns the nil error.
\<close>

theorem no_tracks:
  assumes "decoded_search e token term limit = Some out"
    and "Items (Tracks out) = []"
  shows "callSpotifySearchParsed e token term limit w =
         (None, w\<lparr>stdout := stdout w @ ''No tracks found.'' @ newline,
                  sent := sent w @ [search_request e token term limit]\<rparr>)"
  using assms(2) by (simp add: callSpotifySearchParsed_decoded [OF assms(1)] Println_def Print_def)

theorem no_tracks_witness:
  "callSpotifySearchParsed (demo_env []) ''tok'' ''Daft Punk'' 5 w0 =
     (None, \<lparr>stdout = ''No tracks found.'' @ newline,
             sent = [search_request (demo_env []) ''tok'' ''Daft Punk'' 5]\<rparr>)"
  using no_tracks [of "demo_env []" "''tok''" "''Daft Punk''" 5 "\<lparr>Tracks = \<lparr>Items = []\<rparr>\<rparr>" w0]
  by (simp add: decoded_demo w0_def)

text \<open>
  C7 as it is stated fails. For the single track \<open>One More Time\<close> by \<open>Daft Punk\<close> the line
  of the form \<^verbatim>\<open><rank>) <artist> - <track>\<close> with the rank 1 begins with \<open>1)\<close>; the line
  printed begins with a space, the rank being written by \<open>%2d\<close>.
\<close>

theorem rank_form_counterexample:
  "stdout (snd (callSpotifySearchParsed (demo_env [track1]) ''tok'' ''Daft Punk'' 5 w0)) =
     '' 1) Daft Punk '' @ emdash @ '' One More Time'' @ newline
   \<and> spec_lines fmt_d 1 [track1] = ''1) Daft Punk '' @ emdash @ '' One More Time'' @ newline
   \<and> stdout (snd (callSpotifySearchParsed (demo_env [track1]) ''tok'' ''Daft Punk'' 5 w0))
       \<noteq> spec_lines fmt_d 1 [track1]"
  by (simp add: callSpotifySearchParsed_decoded [OF decoded_demo] range_Items_spec w0_def
      track1_def spec_line_def display_artist_def fmt_2d_1 fmt_d_1)

text \<open>
  C7, amended. For every decoded track list that is not empty, \<open>callSpotifySearchParsed\<close>
  prints one line for each track, of the form \<^verbatim>\<open><rank>) <artist> - <track>\<close> where the
  rank is the position of the track counted from 1 and written right-aligned in two
  columns (with a space in front of a rank below 10); the lines are in the order of the
  tracks in the response, and the nil error is returned.
\<close>

theorem ranked_lines:
  assumes "decoded_search e token term limit = Some out"
    and "Items (Tracks out) \<noteq> []"
  shows "callSpotifySearchParsed e token term limit w =
         (None, w\<lparr>stdout := stdout w @ spec_lines fmt_2d 1 (Items (Tracks out)),
                  sent := sent w @ [search_request e token term limit]\<rparr>)
       \<and> spec_lines fmt_2d 1 (Items (Tracks out)) =
           concat (map (\<lambda>k. fmt_2d (1 + int k) @ '') '' @ display_artist (Items (Tracks out) ! k)
                             @ '' '' @ emdash @ '' '' @ track_Name (Items (Tracks out) ! k)
                             @ newline)
                       [0..<length (Items (Tracks out))])"
proof -
  have "callSpotifySearchParsed e token term limit w =
         (None, w\<lparr>stdout := stdout w @ spec_lines fmt_2d 1 (Items (Tracks out)),
                  sent := sent w @ [search_request e token term limit]\<rparr>)"
    using assms(2) by (simp add: callSpotifySearchParsed_decoded [OF assms(1)] range_Items_spec)
  then show ?thesis
    by (simp add: spec_lines_by_index [of fmt_2d 1] spec_line_def)
qed

theorem ranked_lines_witness:
  "callSpotifySearchParsed (demo_env [track2, track1]) ''tok'' ''Daft Punk'' 5 w0 =
     (None, \<lparr>stdout = '' 1) Unknown '' @ emdash @ '' Untitled'' @ newline
                      @ '' 2) Daft Punk '' @ emdash @ '' One More Time'' @ newline,
             sent = [search_request (demo_env [track2, track1]) ''tok'' ''Daft Punk'' 5]\<rparr>)"
  using ranked_lines [of "demo_env [track2, track1]" "''tok''" "''Daft Punk''" 5
        "\<lparr>Tracks = \<lparr>Items = [track2, track1]\<rparr>\<rparr>" w0]
  by (simp add: decoded_demo track1_def track2_def w0_def spec_line_def display_artist_def
      fmt_2d_1 fmt_2d_2)

section \<open>Properties of the token exchange and of the entry points\<close>

text \<open>
  C8. For every response of the token endpoint whose status code is not 200,
  \<open>getAccessToken\<close> returns the empty token, the expiry 0 and an error whose message is
  \<open>status\<close>, the status text, a colon and the body of the response, so that the message
  contains the status text and the body.
\<close>

theorem token_error:
  assumes "NewRequest e (token_request0 e) = None"
    and "Do e (token_request e clientID clientSecret) = Inr resp"
    and "StatusCode resp \<noteq> 200"
  shows "fst (getAccessToken e clientID clientSecret w) =
           ('''', 0, Some (Err (''status '' @ Status resp @ '': '' @ Body resp)))
       \<and> sublist (Status resp) (''status '' @ Status resp @ '': '' @ Body resp)
       \<and> sublist (Body resp) (''status '' @ Status resp @ '': '' @ Body resp)"
proof -
  have "sublist (Body resp) ((''status '' @ Status resp @ '': '') @ Body resp)"
    by (rule sublist_append_leftI)
  moreover have "sublist (Status resp) (''status '' @ Status resp @ ('': '' @ Body resp))"
    by (rule sublist_appendI)
  ultimately show ?thesis
    using assms by (simp add: getAccessToken_def Let_def)
qed

theorem token_error_witness:
  "fst (getAccessToken (demo_env []) ''id'' ''secret'' w0) =
     ('''', 0, Some (Err ''status 401 Unauthorized: denied''))
   \<and> sublist ''401 Unauthorized'' ''status 401 Unauthorized: denied''
   \<and> sublist ''denied'' ''status 401 Unauthorized: denied''"
  using token_error [of "demo_env []" "''id''" "''secret''"
        "\<lparr>StatusCode = 401, Status = ''401 Unauthorized'', Body = ''denied''\<rparr>" w0]
  by (simp add: demo_env_def token_request_def token_request0_def Let_def)

text \<open>
  C9. If the environment variable \<open>SPOTIFY_CLIENT_ID\<close> or \<open>SPOTIFY_CLIENT_SECRET\<close> is
  empty, either entry point prints the line about the missing variables, prints nothing
  else, and hands no request to the network: neither the token POST nor the search GET.
\<close>

theorem missing_credentials:
  assumes "Getenv e ''SPOTIFY_CLIENT_ID'' = '''' \<or> Getenv e ''SPOTIFY_CLIENT_SECRET'' = ''''"
  shows "main e w =
           w\<lparr>stdout := stdout w
                @ ''Missing SPOTIFY_CLIENT_ID or SPOTIFY_CLIENT_SECRET in env'' @ newline\<rparr>
       \<and> main_part_000 e w =
           w\<lparr>stdout := stdout w
                @ ''Missing SPOTIFY_CLIENT_ID or SPOTIFY_CLIENT_SECRET in env'' @ newline\<rparr>
       \<and> sent (main e w) = sent w \<and> sent (main_part_000 e w) = sent w"
  using assms by (auto simp add: main_def main_part_000_def Println_def Print_def)

theorem missing_credentials_witness:
  "Getenv no_credentials ''SPOTIFY_CLIENT_SECRET'' = ''''
   \<and> main no_credentials w0 =
       \<lparr>stdout = ''Missing SPOTIFY_CLIENT_ID or SPOTIFY_CLIENT_SECRET in env'' @ newline,
        sent = []\<rparr>
   \<and> main_part_000 no_credentials w0 =
       \<lparr>stdout = ''Missing SPOTIFY_CLIENT_ID or SPOTIFY_CLIENT_SECRET in env'' @ newline,
        sent = []\<rparr>"
  using missing_credentials [of no_credentials w0]
  by (simp add: no_credentials_def w0_def)

text \<open>
  With both variables set the token request does reach the network; here it is refused
  and \<open>main\<close> stops after reporting it.
\<close>

lemma credentials_present_sends:
  "sent (main (demo_env []) w0) = [token_request (demo_env []) ''x'' ''x'']
   \<and> stdout (main (demo_env []) w0) =
       ''Token fetch failed: status 401 Unauthorized: denied'' @ newline"
  by (simp add: main_def getAccessToken_def demo_env_def token_request_def
      token_request0_def Let_def Println_def Print_def w0_def error_text_def)

end
